theory Spec2Isabelle
  imports Complex_Main "HOL-Library.Multiset"
begin

section \<open>Scenario constants (config.py)\<close>

text \<open>
  Python floats are read as real numbers.  The one floating-point effect that decides
  control flow in the code below, numpy's 0/0 = NaN when a zero vector is normalised,
  is kept as an explicit value (\<open>None\<close> for the all-NaN array).
\<close>

definition CLOUD_SINK_SPEED :: real where
  "CLOUD_SINK_SPEED = 3"

definition CLOUD_RADIUS :: real where
  "CLOUD_RADIUS = 10"

definition CLOUD_DURATION :: real where
  "CLOUD_DURATION = 20"

section \<open>Vectors of three floats (numpy arrays of shape (3,))\<close>

type_synonym vec3 = "real \<times> real \<times> real"

fun vadd :: "vec3 \<Rightarrow> vec3 \<Rightarrow> vec3" where
  "vadd (a1, a2, a3) (b1, b2, b3) = (a1 + b1, a2 + b2, a3 + b3)"

fun vsub :: "vec3 \<Rightarrow> vec3 \<Rightarrow> vec3" where
  "vsub (a1, a2, a3) (b1, b2, b3) = (a1 - b1, a2 - b2, a3 - b3)"

fun smul :: "real \<Rightarrow> vec3 \<Rightarrow> vec3" where
  "smul k (a1, a2, a3) = (k * a1, k * a2, k * a3)"

fun dot :: "vec3 \<Rightarrow> vec3 \<Rightarrow> real" where
  "dot (a1, a2, a3) (b1, b2, b3) = a1 * b1 + a2 * b2 + a3 * b3"

fun cross :: "vec3 \<Rightarrow> vec3 \<Rightarrow> vec3" where
  "cross (a1, a2, a3) (b1, b2, b3) =
     (a2 * b3 - a3 * b2, a3 * b1 - a1 * b3, a1 * b2 - a2 * b1)"

definition vnorm :: "vec3 \<Rightarrow> real" where
  "vnorm v = sqrt (dot v v)"

text \<open>
  \<open>v / np.linalg.norm(v)\<close>: numpy divides componentwise and does not raise; when the
  norm is zero every component is 0/0, so the result is the NaN array (\<open>None\<close>).
\<close>

definition unit_vec_of :: "vec3 \<Rightarrow> vec3 option" where
  "unit_vec_of v = (if vnorm v = 0 then None else Some (smul (1 / vnorm v) v))"

text \<open>\<open>C + r * u\<close> and \<open>C - r * u\<close>, where \<open>u\<close> may be the NaN array.\<close>

definition offset_point :: "vec3 \<Rightarrow> real \<Rightarrow> vec3 option \<Rightarrow> vec3 option" where
  "offset_point C r u = (case u of None \<Rightarrow> None | Some w \<Rightarrow> Some (vadd C (smul r w)))"

definition np_clip :: "real \<Rightarrow> real \<Rightarrow> real \<Rightarrow> real" where
  "np_clip x lo hi = min (max x lo) hi"

section \<open>geometry.py\<close>

text \<open>
  The loop of lines 42 to 55 over \<open>points_to_check\<close>.  For a NaN point both
  comparisons (\<open>vec_vp_norm < 1e-9\<close> and \<open>beta > cone_half_angle\<close>) are false, so the
  loop goes on to the next point.
\<close>

fun points_in_cone :: "vec3 \<Rightarrow> vec3 \<Rightarrow> real \<Rightarrow> vec3 option list \<Rightarrow> bool" where
  "points_in_cone V d cone_half_angle [] = True"
| "points_in_cone V d cone_half_angle (None # ps) = points_in_cone V d cone_half_angle ps"
| "points_in_cone V d cone_half_angle (Some p # ps) =
     (let vec_vp = vsub p V;
          vec_vp_norm = vnorm vec_vp
      in if vec_vp_norm < 1 / 10 ^ 9 then points_in_cone V d cone_half_angle ps
         else let cos_beta = dot vec_vp d / vec_vp_norm;
                  beta = arccos (np_clip cos_beta (- 1) 1)
              in if beta > cone_half_angle then False
                 else points_in_cone V d cone_half_angle ps)"

definition points_to_check :: "vec3 \<Rightarrow> vec3 \<Rightarrow> vec3 \<Rightarrow> real \<Rightarrow> vec3 \<Rightarrow> vec3 option list" where
  "points_to_check V d C r n_c =
     (let vec_vc = vsub C V;
          vec_vc_norm = vnorm vec_vc
      in if vnorm (cross vec_vc d) < 1 / 10 ^ 6 * vec_vc_norm
         then let perp_vec = (if \<bar>fst n_c\<bar> < 9 / 10 then (1, 0, 0) else (0, 1, 0));
                  ortho_vec = cross n_c perp_vec
              in [offset_point C r (unit_vec_of ortho_vec)]
         else let plane_normal = cross vec_vc d;
                  intersection_dir = cross plane_normal n_c;
                  unit_intersection_dir = unit_vec_of intersection_dir
              in [offset_point C r unit_intersection_dir,
                  offset_point C (- r) unit_intersection_dir])"

definition check_circle_in_cone ::
  "vec3 \<Rightarrow> vec3 \<Rightarrow> real \<Rightarrow> vec3 \<Rightarrow> real \<Rightarrow> vec3 \<Rightarrow> bool" where
  "check_circle_in_cone cone_vertex cone_axis_unit_vec cone_half_angle
       circle_center circle_radius circle_normal =
     points_in_cone cone_vertex cone_axis_unit_vec cone_half_angle
       (points_to_check cone_vertex cone_axis_unit_vec circle_center circle_radius
          circle_normal)"

section \<open>core_objects.py\<close>

record TargetCylinder =
  radius :: real
  height :: real
  bottom_center :: vec3
  top_center :: vec3

definition TargetCylinder_init :: "real \<Rightarrow> real \<Rightarrow> vec3 \<Rightarrow> TargetCylinder" where
  "TargetCylinder_init r h c =
     \<lparr>radius = r, height = h, bottom_center = c, top_center = vadd c (0, 0, h)\<rparr>"

definition check_full_obscuration :: "vec3 \<Rightarrow> vec3 \<Rightarrow> TargetCylinder \<Rightarrow> bool" where
  "check_full_obscuration missile_pos cloud_center target_cylinder =
     (let cone_vertex = missile_pos;
          dist_to_cloud = vnorm (vsub cloud_center cone_vertex)
      in if dist_to_cloud \<le> CLOUD_RADIUS then True
         else let cone_axis_unit_vec = smul (1 / dist_to_cloud) (vsub cloud_center cone_vertex);
                  cone_half_angle = arcsin (CLOUD_RADIUS / dist_to_cloud);
                  bottom_circle_ok = check_circle_in_cone cone_vertex cone_axis_unit_vec
                      cone_half_angle (bottom_center target_cylinder)
                      (radius target_cylinder) (0, 0, - 1)
              in if \<not> bottom_circle_ok then False
                 else let top_circle_ok = check_circle_in_cone cone_vertex cone_axis_unit_vec
                            cone_half_angle (top_center target_cylinder)
                            (radius target_cylinder) (0, 0, 1)
                      in if \<not> top_circle_ok then False else True)"

record Missile =
  start_pos :: vec3
  speed :: real
  unit_vec :: vec3

definition get_position :: "Missile \<Rightarrow> real \<Rightarrow> vec3" where
  "get_position m t = vadd (start_pos m) (smul (speed m * t) (unit_vec m))"

record SmokeCloud =
  detonate_pos :: vec3
  start_time :: real
  end_time :: real

definition SmokeCloud_init :: "vec3 \<Rightarrow> real \<Rightarrow> SmokeCloud" where
  "SmokeCloud_init p t0 =
     \<lparr>detonate_pos = p, start_time = t0, end_time = t0 + CLOUD_DURATION\<rparr>"

definition get_center :: "SmokeCloud \<Rightarrow> real \<Rightarrow> vec3 option" where
  "get_center c t =
     (if \<not> (start_time c \<le> t \<and> t < end_time c) then None
      else let t_since_detonate = t - start_time c
           in Some (vsub (detonate_pos c) (0, 0, CLOUD_SINK_SPEED * t_since_detonate)))"

definition check_obscuration_at_time ::
  "SmokeCloud \<Rightarrow> real \<Rightarrow> Missile \<Rightarrow> TargetCylinder \<Rightarrow> bool" where
  "check_obscuration_at_time c t missile target =
     (let missile_pos = get_position missile t;
          cloud_center = get_center c t
      in case cloud_center of
           None \<Rightarrow> False
         | Some cc \<Rightarrow> check_full_obscuration missile_pos cc target)"

section \<open>Exceptions\<close>

datatype py_error = ValueError | IndexError | KeyError | OverflowError

text \<open>
  Subscripting a Python list or numpy array with an integer: indices from \<open>-len\<close> to
  \<open>-1\<close> address the sequence from its end, anything outside \<open>[-len, len)\<close> raises.
\<close>

definition py_index :: "'a list \<Rightarrow> int \<Rightarrow> py_error + 'a" where
  "py_index xs i =
     (if 0 \<le> i \<and> i < int (length xs) then Inr (xs ! nat i)
      else if i < 0 \<and> - int (length xs) \<le> i then Inr (xs ! nat (int (length xs) + i))
      else Inl IndexError)"

text \<open>\<open>int(x)\<close> on a finite float truncates toward zero.\<close>

definition py_int :: "real \<Rightarrow> int" where
  "py_int x = (if 0 \<le> x then \<lfloor>x\<rfloor> else \<lceil>x\<rceil>)"

text \<open>
  The product of two doubles is infinite as soon as its exact value reaches
  \<open>2^1024 - 2^970\<close> in magnitude (the midpoint above the largest double, which rounds
  away from it), and \<open>int\<close> of an infinite float raises OverflowError.
\<close>

definition DBL_OVERFLOW :: real where
  "DBL_OVERFLOW = 2 ^ 1024 - 2 ^ 970"

definition int_of_product :: "real \<Rightarrow> real \<Rightarrow> py_error + int" where
  "int_of_product x y =
     (if DBL_OVERFLOW \<le> \<bar>x * y\<bar> then Inl OverflowError else Inr (py_int (x * y)))"

section \<open>The decision-vector decoder (5.*/optimizer.py, GlobalOptimizer)\<close>

record grenade_strat =
  t_deploy :: real
  t_fuse :: real
  target_missile :: string

record uav_strat =
  strat_speed :: real
  strat_angle :: real
  grenades :: "grenade_strat list"

type_synonym strategy = "string \<rightharpoonup> uav_strat"

record GlobalOptimizer =
  uav_ids :: "string list"
  missile_ids :: "string list"
  uav_grenade_counts :: "string \<rightharpoonup> int"

definition num_missiles :: "GlobalOptimizer \<Rightarrow> int" where
  "num_missiles opt = int (length (missile_ids opt))"

text \<open>
  The inner loop \<open>for i in range(num_grenades)\<close> of lines 42 to 66: \<open>k\<close> iterations
  remain, \<open>i\<close> is the loop variable, \<open>gs\<close> the list \<open>uav_strat['grenades']\<close> so far.
  It returns the list and the advanced \<open>dv_index\<close>.  The entries of \<open>dv\<close> are finite
  floats; \<open>int(target_selector * self.num_missiles)\<close> raises OverflowError when the
  product leaves the range of a double.
\<close>

fun parse_grenades ::
  "GlobalOptimizer \<Rightarrow> real list \<Rightarrow> nat \<Rightarrow> real \<Rightarrow> nat \<Rightarrow> nat \<Rightarrow> grenade_strat list
     \<Rightarrow> py_error + (grenade_strat list \<times> nat)" where
  "parse_grenades opt dv dv_index last_td i 0 gs = Inr (gs, dv_index)"
| "parse_grenades opt dv dv_index last_td i (Suc k) gs =
     (case py_index dv (int dv_index) of
        Inl e \<Rightarrow> Inl e
      | Inr x \<Rightarrow>
          (let t_d = (if i = 0 then x else last_td + x)
           in case py_index dv (int dv_index + 1) of
                Inl e \<Rightarrow> Inl e
              | Inr t_f \<Rightarrow>
                  (case py_index dv (int dv_index + 2) of
                     Inl e \<Rightarrow> Inl e
                   | Inr target_selector \<Rightarrow>
                       (case int_of_product target_selector
                               (real_of_int (num_missiles opt)) of
                          Inl e \<Rightarrow> Inl e
                        | Inr selected \<Rightarrow>
                            (let target_missile_index = min selected (num_missiles opt - 1)
                             in case py_index (missile_ids opt) target_missile_index of
                                  Inl e \<Rightarrow> Inl e
                                | Inr target_missile_id \<Rightarrow>
                                    parse_grenades opt dv (dv_index + 3) t_d (Suc i) k
                                      (gs @ [\<lparr>t_deploy = t_d, t_fuse = t_f,
                                              target_missile = target_missile_id\<rparr>]))))))"

text \<open>
  The outer loop \<open>for uav_id in self.uav_ids\<close>.  Unpacking
  \<open>speed, angle = dv[dv_index : dv_index + 2]\<close> raises ValueError unless the slice has
  exactly two entries; a missing key of \<open>uav_grenade_counts\<close> raises KeyError.
\<close>

fun parse_uavs ::
  "GlobalOptimizer \<Rightarrow> real list \<Rightarrow> nat \<Rightarrow> string list \<Rightarrow> strategy \<Rightarrow> py_error + strategy" where
  "parse_uavs opt dv dv_index [] strat = Inr strat"
| "parse_uavs opt dv dv_index (uav_id # rest) strat =
     (case uav_grenade_counts opt uav_id of
        None \<Rightarrow> Inl KeyError
      | Some num_grenades \<Rightarrow>
          (case take 2 (drop dv_index dv) of
             [uav_speed, uav_angle] \<Rightarrow>
               (case parse_grenades opt dv (dv_index + 2) 0 0 (nat num_grenades) [] of
                  Inl e \<Rightarrow> Inl e
                | Inr (gs, dv_index') \<Rightarrow>
                    parse_uavs opt dv dv_index' rest
                      (strat(uav_id \<mapsto>
                         \<lparr>strat_speed = uav_speed, strat_angle = uav_angle, grenades = gs\<rparr>)))
           | _ \<Rightarrow> Inl ValueError))"

definition parse_decision_variables :: "GlobalOptimizer \<Rightarrow> real list \<Rightarrow> py_error + strategy" where
  "parse_decision_variables opt dv = parse_uavs opt dv 0 (uav_ids opt) Map.empty"

text \<open>
  \<open>objective_function\<close>, lines 72 to 133.  Everything after the \<open>try\<close> block (building
  the clouds and sampling the time grid) is the parameter \<open>simulate\<close>; the
  \<open>except (ValueError, IndexError)\<close> clause catches exactly those two, so a KeyError or
  an OverflowError of the decoder leaves \<open>objective_function\<close> as an exception.
\<close>

definition objective_function ::
  "GlobalOptimizer \<Rightarrow> (strategy \<Rightarrow> py_error + real) \<Rightarrow> real list \<Rightarrow> py_error + real" where
  "objective_function opt simulate decision_variables =
     (case parse_decision_variables opt decision_variables of
        Inl ValueError \<Rightarrow> Inr (10 ^ 9)
      | Inl IndexError \<Rightarrow> Inr (10 ^ 9)
      | Inl e \<Rightarrow> Inl e
      | Inr strat \<Rightarrow> simulate strat)"


text \<open>A small configuration: one carrier with one munition, three threats.\<close>

definition demo_optimizer :: GlobalOptimizer where
  "demo_optimizer = \<lparr>uav_ids = [''FY1''], missile_ids = [''M1'', ''M2'', ''M3''],
      uav_grenade_counts = [''FY1'' \<mapsto> 1]\<rparr>"

section \<open>adaptive_de.py: adaptive parameters\<close>

datatype MutationStrategy =
  DE_RAND_1 | DE_BEST_1 | DE_CURRENT_TO_BEST_1 | DE_RAND_2 | DE_BEST_2

datatype BoundaryHandling = CLIP | REFLECT | REINITIALIZE | MIDPOINT

text \<open>\<open>deque(maxlen=m).append(x)\<close>: a full deque drops its oldest entry.\<close>

definition deque_append :: "nat \<Rightarrow> 'a list \<Rightarrow> 'a \<Rightarrow> 'a list" where
  "deque_append maxlen xs x = drop (Suc (length xs) - maxlen) (xs @ [x])"

record AdaptiveParameters =
  memory_size :: nat
  successful_F :: "real list"
  successful_CR :: "real list"
  mean_F :: real
  mean_CR :: real
  std_F :: real
  std_CR :: real

definition AdaptiveParameters_init :: "nat \<Rightarrow> AdaptiveParameters" where
  "AdaptiveParameters_init m =
     \<lparr>memory_size = m, successful_F = [], successful_CR = [],
      mean_F = 1 / 2, mean_CR = 1 / 2, std_F = 1 / 10, std_CR = 1 / 10\<rparr>"

definition add_success :: "AdaptiveParameters \<Rightarrow> real \<Rightarrow> real \<Rightarrow> AdaptiveParameters" where
  "add_success ap F CR =
     ap\<lparr>successful_F := deque_append (memory_size ap) (successful_F ap) F,
        successful_CR := deque_append (memory_size ap) (successful_CR ap) CR\<rparr>"

definition np_mean :: "real list \<Rightarrow> real" where
  "np_mean xs = sum_list xs / real (length xs)"

definition update_parameters :: "AdaptiveParameters \<Rightarrow> AdaptiveParameters" where
  "update_parameters ap =
     (if length (successful_F ap) > 0
      then let F_values = successful_F ap;
               new_mean_F = (if sum_list F_values > 0
                             then sum_list (map (\<lambda>x. x ^ 2) F_values) / sum_list F_values
                             else 1 / 2);
               new_mean_CR = np_mean (successful_CR ap)
           in ap\<lparr>mean_F := new_mean_F, mean_CR := new_mean_CR,
                 successful_F := [], successful_CR := []\<rparr>
      else ap)"

text \<open>
  \<open>generate_parameters\<close>: the two normal samples (drawn around \<open>mean_F\<close> and \<open>mean_CR\<close>)
  and the uniform sample are inputs; the function clips them and replaces a
  non-positive F.
\<close>

definition generate_parameters :: "real \<Rightarrow> real \<Rightarrow> real \<Rightarrow> real \<times> real" where
  "generate_parameters normal_F normal_CR uniform_F =
     (let F = np_clip normal_F 0 2;
          CR = np_clip normal_CR 0 1
      in (if F \<le> 0 then uniform_F else F, CR))"

text \<open>
  Lines 351 to 353 of \<open>optimize\<close>: the generation's successful pairs are appended to
  the memory, then \<open>update_parameters\<close> runs.
\<close>

definition end_of_generation ::
  "AdaptiveParameters \<Rightarrow> (real \<times> real) list \<Rightarrow> AdaptiveParameters" where
  "end_of_generation ap pairs =
     update_parameters (fold (\<lambda>(F, CR) a. add_success a F CR) pairs ap)"

section \<open>adaptive_de.py: the optimizer\<close>

text \<open>
  The fields of \<open>AdaptiveDifferentialEvolution\<close> that the constructor sets and nothing
  changes afterwards.
\<close>

record de_config =
  objective_func :: "real list \<Rightarrow> real"
  lower_bounds :: "real list"
  upper_bounds :: "real list"
  dim :: nat
  popsize :: nat
  maxiter :: nat
  tol :: real
  boundary_handling :: BoundaryHandling
  use_archive :: bool
  archive_size :: nat
  adaptive_popsize :: bool

text \<open>The fields that \<open>optimize\<close> updates.\<close>

record de_state =
  population :: "real list list"
  fitness :: "real list"
  best_idx :: nat
  best_fitness :: real
  generation :: nat
  convergence_history :: "real list"
  adaptive_params :: AdaptiveParameters
  archive :: "real list list option"

text \<open>
  The values that the random number generator hands out while one individual is
  evolved: the samples of \<open>generate_parameters\<close>, the strategy that
  \<open>select_strategy\<close> returns, the indices that \<open>np.random.choice\<close> returns in
  \<open>mutate\<close>, the forced dimension and the per-dimension draws of \<open>crossover\<close>, and
  the uniform redraws of \<open>handle_boundary\<close> (for the mutant and for the trial).  The
  strategy selector's statistics only shape the distribution of \<open>strategy\<close> and are
  not modelled.
\<close>

record draws =
  normal_F :: real
  normal_CR :: real
  uniform_F :: real
  strategy :: MutationStrategy
  picks :: "nat list"
  reinit_mutant :: "real list"
  random_dim :: nat
  cross_draws :: "real list"
  reinit_trial :: "real list"

text \<open>\<open>np.argmin\<close>: the first index of a least entry.\<close>

fun np_argmin :: "real list \<Rightarrow> nat" where
  "np_argmin [] = 0"
| "np_argmin [x] = 0"
| "np_argmin (x # y # ys) =
     (let j = np_argmin (y # ys) in if x \<le> (y # ys) ! j then 0 else Suc j)"

text \<open>
  \<open>np.argsort\<close>: the indices in order of ascending value (ties in index order here;
  numpy's default sort leaves their order open).
\<close>

definition np_argsort :: "real list \<Rightarrow> nat list" where
  "np_argsort fs = sort_key (\<lambda>i. fs ! i) [0..<length fs]"

text \<open>
  \<open>initialize_population\<close>: \<open>uniform_sample k\<close> is row \<open>k\<close> of the uniform sample of
  shape (popsize, dim).  \<open>np.argmin\<close> of an empty array raises ValueError.  The other
  fields have the values the constructor gave them (the constructor's
  \<open>best_fitness = np.inf\<close> is overwritten here before it is ever read).
\<close>

definition initialize_population :: "de_config \<Rightarrow> (nat \<Rightarrow> real list) \<Rightarrow> py_error + de_state" where
  "initialize_population cfg uniform_sample =
     (let pop = map uniform_sample [0..<popsize cfg];
          fit = map (objective_func cfg) pop
      in if fit = [] then Inl ValueError
         else let b = np_argmin fit
              in Inr \<lparr>population = pop, fitness = fit, best_idx = b, best_fitness = fit ! b,
                      generation = 0, convergence_history = [],
                      adaptive_params = AdaptiveParameters_init 100,
                      archive = (if use_archive cfg then Some [] else None)\<rparr>)"

definition lvadd :: "real list \<Rightarrow> real list \<Rightarrow> real list" where
  "lvadd xs ys = map2 (+) xs ys"

definition lvsub :: "real list \<Rightarrow> real list \<Rightarrow> real list" where
  "lvsub xs ys = map2 (-) xs ys"

definition lsmul :: "real \<Rightarrow> real list \<Rightarrow> real list" where
  "lsmul k xs = map ((*) k) xs"

text \<open>
  \<open>np.random.choice(candidates, k, replace=False)\<close> raises ValueError when there are
  fewer than \<open>k\<close> candidates; otherwise it returns the drawn indices.
\<close>

definition np_choice :: "nat list \<Rightarrow> nat \<Rightarrow> nat list \<Rightarrow> py_error + nat list" where
  "np_choice candidates k drawn = (if length candidates < k then Inl ValueError else Inr drawn)"

definition mutate ::
  "de_state \<Rightarrow> nat \<Rightarrow> MutationStrategy \<Rightarrow> real \<Rightarrow> nat list \<Rightarrow> py_error + real list" where
  "mutate st target_idx strat F drawn =
     (let pop_size = length (population st);
          P = (\<lambda>r. population st ! r);
          rand1 =
            (case np_choice (filter (\<lambda>i. i \<noteq> target_idx) [0..<pop_size]) 3 drawn of
               Inl e \<Rightarrow> Inl e
             | Inr [r1, r2, r3] \<Rightarrow> Inr (lvadd (P r1) (lsmul F (lvsub (P r2) (P r3))))
             | Inr _ \<Rightarrow> Inl ValueError)
      in case strat of
           DE_RAND_1 \<Rightarrow> rand1
         | DE_BEST_1 \<Rightarrow>
             (case np_choice
                     (filter (\<lambda>i. i \<noteq> target_idx \<and> i \<noteq> best_idx st) [0..<pop_size]) 2 drawn of
                Inl e \<Rightarrow> Inl e
              | Inr [r1, r2] \<Rightarrow>
                  Inr (lvadd (P (best_idx st)) (lsmul F (lvsub (P r1) (P r2))))
              | Inr _ \<Rightarrow> Inl ValueError)
         | DE_CURRENT_TO_BEST_1 \<Rightarrow>
             (case np_choice
                     (filter (\<lambda>i. i \<noteq> target_idx \<and> i \<noteq> best_idx st) [0..<pop_size]) 2 drawn of
                Inl e \<Rightarrow> Inl e
              | Inr [r1, r2] \<Rightarrow>
                  Inr (lvadd (lvadd (P target_idx)
                                (lsmul F (lvsub (P (best_idx st)) (P target_idx))))
                         (lsmul F (lvsub (P r1) (P r2))))
              | Inr _ \<Rightarrow> Inl ValueError)
         | DE_RAND_2 \<Rightarrow>
             (case np_choice (filter (\<lambda>i. i \<noteq> target_idx) [0..<pop_size]) 5 drawn of
                Inl e \<Rightarrow> Inl e
              | Inr [r1, r2, r3, r4, r5] \<Rightarrow>
                  Inr (lvadd (lvadd (P r1) (lsmul F (lvsub (P r2) (P r3))))
                         (lsmul F (lvsub (P r4) (P r5))))
              | Inr _ \<Rightarrow> Inl ValueError)
         | DE_BEST_2 \<Rightarrow> rand1)"

text \<open>
  \<open>crossover\<close>: \<open>np.random.randint(0, dim)\<close> raises ValueError for \<open>dim = 0\<close>;
  \<open>rdim\<close> is the index it returns and \<open>cdraws ! i\<close> the value of
  \<open>np.random.random()\<close> in iteration \<open>i\<close>.
\<close>

definition crossover ::
  "nat \<Rightarrow> real list \<Rightarrow> real list \<Rightarrow> real \<Rightarrow> nat \<Rightarrow> real list \<Rightarrow> py_error + real list" where
  "crossover n target mutant CR rdim cdraws =
     (if n = 0 then Inl ValueError
      else Inr (fold (\<lambda>i trial. if cdraws ! i < CR \<or> i = rdim
                                 then trial[i := mutant ! i] else trial)
                  [0..<n] target))"

definition handle_boundary :: "de_config \<Rightarrow> real list \<Rightarrow> real list \<Rightarrow> real list" where
  "handle_boundary cfg individual redraw =
     (let lo = (\<lambda>i. lower_bounds cfg ! i); hi = (\<lambda>i. upper_bounds cfg ! i)
      in case boundary_handling cfg of
           CLIP \<Rightarrow>
             map (\<lambda>(x, l, u). np_clip x l u)
               (zip individual (zip (lower_bounds cfg) (upper_bounds cfg)))
         | REFLECT \<Rightarrow>
             fold (\<lambda>i ind.
                     if ind ! i < lo i then ind[i := min (lo i + (lo i - ind ! i)) (hi i)]
                     else if ind ! i > hi i then ind[i := max (hi i - (ind ! i - hi i)) (lo i)]
                     else ind)
               [0..<dim cfg] individual
         | REINITIALIZE \<Rightarrow>
             fold (\<lambda>i ind.
                     if ind ! i < lo i \<or> ind ! i > hi i then ind[i := redraw ! i] else ind)
               [0..<dim cfg] individual
         | MIDPOINT \<Rightarrow>
             fold (\<lambda>i ind.
                     if ind ! i < lo i \<or> ind ! i > hi i then ind[i := (lo i + hi i) / 2]
                     else ind)
               [0..<dim cfg] individual)"

definition update_population_size :: "de_config \<Rightarrow> de_state \<Rightarrow> de_state" where
  "update_population_size cfg st =
     (if \<not> adaptive_popsize cfg then st
      else let min_popsize = max 4 (dim cfg div 2);
               max_popsize = popsize cfg;
               progress = real (generation st) / real (maxiter cfg);
               current_popsize =
                 py_int (real max_popsize - progress * (real max_popsize - real min_popsize));
               current_popsize = max current_popsize (int min_popsize)
           in if current_popsize < int (length (population st))
              then let sorted_indices = np_argsort (fitness st);
                       kept = take (nat current_popsize) sorted_indices
                   in st\<lparr>population := map (\<lambda>j. population st ! j) kept,
                         fitness := map (\<lambda>j. fitness st ! j) kept,
                         best_idx := 0\<rparr>
              else st)"

text \<open>
  The body of the loop over the individuals (lines 308 to 348).  \<open>succ\<close> is the pair of
  lists \<open>generation_successful_F\<close>, \<open>generation_successful_CR\<close>, zipped.
\<close>

definition evolve_individual ::
  "de_config \<Rightarrow> draws \<Rightarrow> nat \<Rightarrow> de_state \<times> (real \<times> real) list
     \<Rightarrow> py_error + (de_state \<times> (real \<times> real) list)" where
  "evolve_individual cfg d i acc =
     (let st = fst acc; succ = snd acc;
          (F, CR) = generate_parameters (normal_F d) (normal_CR d) (uniform_F d)
      in case mutate st i (strategy d) F (picks d) of
           Inl e \<Rightarrow> Inl e
         | Inr mutant0 \<Rightarrow>
             (let mutant = handle_boundary cfg mutant0 (reinit_mutant d)
              in case crossover (dim cfg) (population st ! i) mutant CR (random_dim d)
                        (cross_draws d) of
                   Inl e \<Rightarrow> Inl e
                 | Inr trial0 \<Rightarrow>
                     (let trial = handle_boundary cfg trial0 (reinit_trial d);
                          trial_fitness = objective_func cfg trial;
                          success = (trial_fitness < fitness st ! i)
                      in if success
                         then let st1 = st\<lparr>archive :=
                                             map_option (\<lambda>a. deque_append (archive_size cfg) a
                                                               (population st ! i)) (archive st),
                                           population := (population st)[i := trial],
                                           fitness := (fitness st)[i := trial_fitness]\<rparr>;
                                  st2 = (if trial_fitness < best_fitness st1
                                         then st1\<lparr>best_idx := i, best_fitness := trial_fitness\<rparr>
                                         else st1)
                              in Inr (st2, succ @ [(F, CR)])
                         else Inr (st, succ))))"

fun evolve_population ::
  "de_config \<Rightarrow> (nat \<Rightarrow> draws) \<Rightarrow> nat list \<Rightarrow> de_state \<times> (real \<times> real) list
     \<Rightarrow> py_error + (de_state \<times> (real \<times> real) list)" where
  "evolve_population cfg rnd [] acc = Inr acc"
| "evolve_population cfg rnd (i # rest) acc =
     (case evolve_individual cfg (rnd i) i acc of
        Inl e \<Rightarrow> Inl e
      | Inr acc' \<Rightarrow> evolve_population cfg rnd rest acc')"

text \<open>One pass of the loop over the generations, up to the convergence check.\<close>

definition run_generation ::
  "de_config \<Rightarrow> (nat \<Rightarrow> nat \<Rightarrow> draws) \<Rightarrow> nat \<Rightarrow> de_state \<Rightarrow> py_error + de_state" where
  "run_generation cfg rnd g st =
     (let st1 = update_population_size cfg (st\<lparr>generation := g\<rparr>)
      in case evolve_population cfg (rnd g) [0..<length (population st1)] (st1, []) of
           Inl e \<Rightarrow> Inl e
         | Inr (st2, succ) \<Rightarrow>
             Inr (st2\<lparr>adaptive_params := end_of_generation (adaptive_params st2) succ,
                      convergence_history := convergence_history st2 @ [best_fitness st2]\<rparr>))"

fun optimize_loop ::
  "de_config \<Rightarrow> (nat \<Rightarrow> nat \<Rightarrow> draws) \<Rightarrow> nat list \<Rightarrow> de_state \<Rightarrow> py_error + de_state" where
  "optimize_loop cfg rnd [] st = Inr st"
| "optimize_loop cfg rnd (g # rest) st =
     (case run_generation cfg rnd g st of
        Inl e \<Rightarrow> Inl e
      | Inr st' \<Rightarrow>
          if \<bar>best_fitness st'\<bar> < tol cfg then Inr st' else optimize_loop cfg rnd rest st')"

definition optimize ::
  "de_config \<Rightarrow> (nat \<Rightarrow> real list) \<Rightarrow> (nat \<Rightarrow> nat \<Rightarrow> draws) \<Rightarrow> py_error + de_state" where
  "optimize cfg uniform_sample rnd =
     (case initialize_population cfg uniform_sample of
        Inl e \<Rightarrow> Inl e
      | Inr st \<Rightarrow> optimize_loop cfg rnd [0..<maxiter cfg] st)"

section \<open>Predicates on the optimizer state\<close>

text \<open>
  The state is well formed (a non-empty fitness array, one cached fitness per individual,
  \<open>best_idx\<close> inside the array), \<open>fitness[best_idx] == best_fitness\<close>, and
  \<open>best_fitness\<close> is the minimum of the fitness array.
\<close>

definition best_is_min :: "de_state \<Rightarrow> bool" where
  "best_is_min st =
     (fitness st \<noteq> [] \<and> length (population st) = length (fitness st)
      \<and> best_idx st < length (fitness st)
      \<and> fitness st ! best_idx st = best_fitness st
      \<and> best_fitness st = Min (set (fitness st)))"

text \<open>
  The recorded best values never rise, and the current best is not above any of them.
\<close>

definition history_ok :: "de_state \<Rightarrow> bool" where
  "history_ok st =
     (sorted_wrt (\<ge>) (convergence_history st)
      \<and> (\<forall>h\<in>set (convergence_history st). best_fitness st \<le> h))"

text \<open>
  A small run: one dimension, six individuals, two generations, population shrinking
  switched on; every individual draws F = CR = 0.5 and the first three other indices.
\<close>

definition demo_de_config :: de_config where
  "demo_de_config =
     \<lparr>objective_func = (\<lambda>x. sum_list (map (\<lambda>v. v * v) x)),
      lower_bounds = [- 5], upper_bounds = [5], dim = 1, popsize = 6, maxiter = 2,
      tol = 1 / 10 ^ 6, boundary_handling = REFLECT, use_archive = True,
      archive_size = 100, adaptive_popsize = True\<rparr>"

definition demo_sample :: "nat \<Rightarrow> real list" where
  "demo_sample k = [real k + 1]"

definition demo_rnd :: "nat \<Rightarrow> nat \<Rightarrow> draws" where
  "demo_rnd g i =
     \<lparr>normal_F = 1 / 2, normal_CR = 1 / 2, uniform_F = 1 / 2, strategy = DE_RAND_1,
      picks = take 3 (filter (\<lambda>j. j \<noteq> i) [0..<6]), reinit_mutant = [0],
      random_dim = 0, cross_draws = [1 / 2], reinit_trial = [0]\<rparr>"

section \<open>The cloud's activity window\<close>

text \<open>
  C4.  A cloud built from detonation position \<open>p\<close> and detonation time \<open>t0\<close> keeps the
  window \<open>[t0, t0 + CLOUD_DURATION)\<close> it was constructed with; inside it
  \<open>get_center\<close> is the detonation position lowered by
  \<open>CLOUD_SINK_SPEED * (t - t0)\<close>, outside it \<open>get_center\<close> is \<open>None\<close>; and
  \<open>check_obscuration_at_time\<close> is \<open>False\<close> whenever the centre is \<open>None\<close>.
\<close>

theorem get_center_window:
  "start_time (SmokeCloud_init p t0) = t0
   \<and> end_time (SmokeCloud_init p t0) = t0 + CLOUD_DURATION
   \<and> get_center (SmokeCloud_init p t0) t =
       (if t0 \<le> t \<and> t < t0 + CLOUD_DURATION
        then Some (vsub p (0, 0, CLOUD_SINK_SPEED * (t - t0))) else None)
   \<and> (get_center c t = None \<longrightarrow> check_obscuration_at_time c t missile target = False)"
  by (simp add: SmokeCloud_init_def get_center_def check_obscuration_at_time_def)

theorem get_center_window_witness:
  "get_center (SmokeCloud_init (0, 0, 100) 5) 7 = Some (0, 0, 94)
   \<and> get_center (SmokeCloud_init (0, 0, 100) 5) 25 = None
   \<and> check_obscuration_at_time (SmokeCloud_init (0, 0, 100) 5) 25
        \<lparr>start_pos = (20000, 0, 2000), speed = 300, unit_vec = (- 1, 0, 0)\<rparr>
        (TargetCylinder_init 7 10 (0, 200, 0)) = False"
proof -
  let ?c = "SmokeCloud_init (0, 0, 100) 5"
  let ?m = "\<lparr>start_pos = (20000, 0, 2000), speed = 300, unit_vec = (- 1, 0, 0)\<rparr>"
  let ?T = "TargetCylinder_init 7 10 (0, 200, 0)"
  have a: "get_center ?c 7 = Some (0, 0, 94)"
    using get_center_window [of "(0, 0, 100)" 5 7 ?c ?m ?T]
    by (simp add: CLOUD_DURATION_def CLOUD_SINK_SPEED_def)
  have b: "get_center ?c 25 = None"
    using get_center_window [of "(0, 0, 100)" 5 25 ?c ?m ?T]
    by (simp add: CLOUD_DURATION_def)
  have c: "check_obscuration_at_time ?c 25 ?m ?T = False"
    using get_center_window [of "(0, 0, 100)" 5 25 ?c ?m ?T] b by simp
  show ?thesis using a b c by simp
qed

section \<open>Decoding rejects short vectors only\<close>



lemma py_index_nat_bound0: "py_index xs (int j) = Inr x \<Longrightarrow> j < length xs"
  by (auto simp: py_index_def Let_def split: if_splits)

















text \<open>
  Outside that range the decoder's exception is not one that \<open>objective_function\<close>
  catches: a target selector of \<open>2^1023\<close> with three missiles gives OverflowError.
\<close>

lemma decode_overflow_not_caught:
  "objective_function demo_optimizer simulate [100, 1, 2, 3, 2 ^ 1023] = Inl OverflowError"
proof -
  have "(2 :: real) ^ 1024 - 2 ^ 970 \<le> 2 ^ 1023 * 3" by simp
  then have "int_of_product (2 ^ 1023) 3 = Inl OverflowError"
    by (simp add: int_of_product_def DBL_OVERFLOW_def)
  then show ?thesis
    by (simp add: objective_function_def demo_optimizer_def parse_decision_variables_def
        py_index_def num_missiles_def)
qed

section \<open>The adaptive centres are recomputed from one generation's successes\<close>

lemma deque_fold:
  "length xs \<le> m \<Longrightarrow>
   fold (\<lambda>x a. deque_append m a x) ps xs = drop (length xs + length ps - m) (xs @ ps)"
proof (induction ps arbitrary: xs)
  case Nil then show ?case by simp
next
  case (Cons p ps)
  let ?xs' = "deque_append m xs p"
  have len: "length ?xs' \<le> m" by (simp add: deque_append_def)
  have "fold (\<lambda>x a. deque_append m a x) (p # ps) xs = fold (\<lambda>x a. deque_append m a x) ps ?xs'"
    by simp
  also have "\<dots> = drop (length ?xs' + length ps - m) (?xs' @ ps)"
    by (rule Cons.IH [OF len])
  also have "\<dots> = drop (length xs + length (p # ps) - m) (xs @ p # ps)"
  proof (cases "length xs < m")
    case True
    then show ?thesis by (simp add: deque_append_def)
  next
    case False
    with Cons.prems have e: "length xs = m" by simp
    then show ?thesis by (cases xs) (simp_all add: deque_append_def)
  qed
  finally show ?case .
qed

lemma fold_add_success:
  "fold (\<lambda>(F, CR) a. add_success a F CR) pairs ap =
     ap\<lparr>successful_F := fold (\<lambda>x a. deque_append (memory_size ap) a x) (map fst pairs)
                            (successful_F ap),
        successful_CR := fold (\<lambda>x a. deque_append (memory_size ap) a x) (map snd pairs)
                            (successful_CR ap)\<rparr>"
proof (induction pairs arbitrary: ap)
  case Nil then show ?case by simp
next
  case (Cons p pairs)
  obtain F CR where p: "p = (F, CR)" by (cases p)
  have "fold (\<lambda>(F, CR) a. add_success a F CR) (p # pairs) ap
          = fold (\<lambda>(F, CR) a. add_success a F CR) pairs (add_success ap F CR)"
    by (simp add: p)
  also note Cons.IH [of "add_success ap F CR"]
  finally show ?case by (simp add: add_success_def p)
qed

lemma memory_after_adds:
  assumes "successful_F ap = []" "successful_CR ap = []"
  shows "fold (\<lambda>(F, CR) a. add_success a F CR) pairs ap =
     ap\<lparr>successful_F := map fst (drop (length pairs - memory_size ap) pairs),
        successful_CR := map snd (drop (length pairs - memory_size ap) pairs)\<rparr>"
  using assms deque_fold [of "[]" "memory_size ap" "map fst pairs"]
    deque_fold [of "[]" "memory_size ap" "map snd pairs"]
  by (simp add: fold_add_success drop_map)

lemma end_of_generation_eq:
  assumes "successful_F ap = []" "successful_CR ap = []"
  shows "end_of_generation ap pairs =
     (let kept = drop (length pairs - memory_size ap) pairs
      in if kept = [] then ap
         else ap\<lparr>mean_F := (if sum_list (map fst kept) > 0
                             then sum_list (map (\<lambda>x. x ^ 2) (map fst kept)) / sum_list (map fst kept)
                             else 1 / 2),
                  mean_CR := sum_list (map snd kept) / real (length kept)\<rparr>)"
  using assms
  by (simp add: end_of_generation_def memory_after_adds update_parameters_def Let_def np_mean_def)

lemma end_of_generation_empty:
  assumes "successful_F ap = []" "successful_CR ap = []"
  shows "successful_F (end_of_generation ap pairs) = []
       \<and> successful_CR (end_of_generation ap pairs) = []
       \<and> memory_size (end_of_generation ap pairs) = memory_size ap"
  using assms by (simp add: end_of_generation_eq Let_def)

lemma generations_memory:
  assumes "successful_F ap = []" "successful_CR ap = []"
  shows "successful_F (fold (\<lambda>pairs a. end_of_generation a pairs) gens ap) = []
       \<and> successful_CR (fold (\<lambda>pairs a. end_of_generation a pairs) gens ap) = []
       \<and> memory_size (fold (\<lambda>pairs a. end_of_generation a pairs) gens ap) = memory_size ap"
  using assms
proof (induction gens arbitrary: ap)
  case Nil then show ?case by simp
next
  case (Cons g gens)
  from end_of_generation_empty [OF Cons.prems, of g]
  have e: "successful_F (end_of_generation ap g) = []"
    "successful_CR (end_of_generation ap g) = []"
    "memory_size (end_of_generation ap g) = memory_size ap" by auto
  from Cons.IH [OF e(1) e(2)] e(3) show ?case by simp
qed


text \<open>
  C7, as the code has it.  At the start of every generation's bookkeeping the
  successful-pair memory is empty, and it is empty again afterwards.  A generation with at
  least one success sets \<open>mean_F\<close> to the Lehmer mean (sum of squares over sum) and
  \<open>mean_CR\<close> to the arithmetic mean of that generation's successful values, the last
  100 of them when there are more (the memory is a deque of that capacity); a generation
  without a success leaves both centres as they were.
\<close>

theorem generation_means_from_own_successes:
  "(let ap = fold (\<lambda>pairs a. end_of_generation a pairs) gens (AdaptiveParameters_init 100);
        kept = drop (length pairs - 100) pairs
    in successful_F ap = [] \<and> successful_CR ap = []
       \<and> successful_F (end_of_generation ap pairs) = []
       \<and> successful_CR (end_of_generation ap pairs) = []
       \<and> end_of_generation ap pairs =
           (if pairs = [] then ap
            else ap\<lparr>mean_F := (if sum_list (map fst kept) > 0
                                then sum_list (map (\<lambda>x. x ^ 2) (map fst kept))
                                       / sum_list (map fst kept)
                                else 1 / 2),
                     mean_CR := sum_list (map snd kept) / real (length kept)\<rparr>))"
proof -
  let ?ap = "fold (\<lambda>pairs a. end_of_generation a pairs) gens (AdaptiveParameters_init 100)"
  have i: "successful_F (AdaptiveParameters_init 100) = []"
    "successful_CR (AdaptiveParameters_init 100) = []"
    "memory_size (AdaptiveParameters_init 100) = 100"
    by (simp_all add: AdaptiveParameters_init_def)
  from generations_memory [OF i(1) i(2), of gens] i(3)
  have m: "successful_F ?ap = []" "successful_CR ?ap = []" "memory_size ?ap = 100" by auto
  have "length pairs \<le> length pairs - 100 \<longrightarrow> length pairs = 0" by arith
  then have k: "drop (length pairs - 100) pairs = [] \<longleftrightarrow> pairs = []" by auto
  from end_of_generation_empty [OF m(1) m(2), of pairs]
  have e: "successful_F (end_of_generation ?ap pairs) = []"
    "successful_CR (end_of_generation ?ap pairs) = []" by auto
  show ?thesis
    unfolding Let_def
    using m e end_of_generation_eq [OF m(1) m(2), of pairs] k
    by (simp add: Let_def)
qed

text \<open>
  The claim C7 as stated puts \<open>mean_F\<close> at 0.5 after a generation without successes;
  after a generation whose one success had F = 1, a generation without successes leaves it
  at 1.
\<close>

theorem mean_F_kept_without_successes:
  "mean_F (end_of_generation (end_of_generation (AdaptiveParameters_init 100) [(1, 1 / 2)]) [])
     = 1"
  by (simp add: end_of_generation_def update_parameters_def add_success_def
      AdaptiveParameters_init_def deque_append_def np_mean_def)

theorem generation_means_witness:
  "mean_F (end_of_generation (end_of_generation (AdaptiveParameters_init 100) [(1, 1 / 2)])
             [(1 / 2, 1 / 4), (1, 3 / 4)]) = 5 / 6
   \<and> mean_CR (end_of_generation (end_of_generation (AdaptiveParameters_init 100) [(1, 1 / 2)])
             [(1 / 2, 1 / 4), (1, 3 / 4)]) = 1 / 2"
  using generation_means_from_own_successes [of "[[(1, 1 / 2)]]" "[(1 / 2, 1 / 4), (1, 3 / 4)]"]
  by (simp add: Let_def power2_eq_square)

section \<open>Crossover copies the forced dimension\<close>

lemma crossover_fold:
  "length (fold (\<lambda>i trial. if cdraws ! i < CR \<or> i = rdim then trial[i := mutant ! i] else trial)
             [0..<n] target) = length target
   \<and> (\<forall>i<length target.
        fold (\<lambda>i trial. if cdraws ! i < CR \<or> i = rdim then trial[i := mutant ! i] else trial)
             [0..<n] target ! i
        = (if i < n \<and> (cdraws ! i < CR \<or> i = rdim) then mutant ! i else target ! i))"
proof (induction n)
  case 0 then show ?case by simp
next
  case (Suc n)
  let ?f = "\<lambda>i trial. if cdraws ! i < CR \<or> i = rdim then trial[i := mutant ! i] else trial"
  let ?t = "fold ?f [0..<n] target"
  have s: "fold ?f [0..<Suc n] target = ?f n ?t" by simp
  from Suc have l: "length ?t = length target"
    and v: "\<And>i. i < length target \<Longrightarrow>
              ?t ! i = (if i < n \<and> (cdraws ! i < CR \<or> i = rdim) then mutant ! i else target ! i)"
    by auto
  have "length (?f n ?t) = length target" using l by simp
  moreover have "?f n ?t ! i
      = (if i < Suc n \<and> (cdraws ! i < CR \<or> i = rdim) then mutant ! i else target ! i)"
    if "i < length target" for i
  proof (cases "i = n")
    case True
    then show ?thesis using that l v [OF that] by simp
  next
    case False
    then have "?f n ?t ! i = ?t ! i" by simp
    also have "\<dots> = (if i < n \<and> (cdraws ! i < CR \<or> i = rdim) then mutant ! i else target ! i)"
      by (rule v [OF that])
    finally show ?thesis using False by (simp add: less_Suc_eq)
  qed
  ultimately show ?case unfolding s by blast
qed

text \<open>
  C8, as the code has it.  For a target and a mutant of the configured dimension and a
  forced dimension inside it, \<open>crossover\<close> returns a trial that has the mutant's
  component at the forced dimension whatever the draws and CR are; every component is the
  mutant's where the draw is below CR or the dimension is the forced one and the target's
  elsewhere; the trial differs from the target when the mutant differs from it at the
  forced dimension.
\<close>

theorem crossover_forced_dimension:
  assumes "length target = n" "length mutant = n" "rdim < n"
  shows "\<exists>trial. crossover n target mutant CR rdim cdraws = Inr trial
           \<and> length trial = n
           \<and> trial ! rdim = mutant ! rdim
           \<and> (\<forall>i<n. trial ! i = (if cdraws ! i < CR \<or> i = rdim then mutant ! i else target ! i))
           \<and> (mutant ! rdim \<noteq> target ! rdim \<longrightarrow> trial \<noteq> target)"
proof -
  let ?t = "fold (\<lambda>i trial. if cdraws ! i < CR \<or> i = rdim then trial[i := mutant ! i] else trial)
             [0..<n] target"
  from assms(3) have c: "crossover n target mutant CR rdim cdraws = Inr ?t"
    by (simp add: crossover_def)
  from crossover_fold [of cdraws CR rdim mutant n target] assms(1)
  have l: "length ?t = n"
    and v: "\<forall>i<n. ?t ! i = (if cdraws ! i < CR \<or> i = rdim then mutant ! i else target ! i)"
    by auto
  from v assms(3) have r: "?t ! rdim = mutant ! rdim" by simp
  then have "mutant ! rdim \<noteq> target ! rdim \<longrightarrow> ?t \<noteq> target" by auto
  with c l v r show ?thesis by blast
qed

text \<open>
  The claim C8 as stated guarantees a trial different from the target; a mutant that
  agrees with the target gives the target back.
\<close>

theorem crossover_can_return_target:
  "crossover 1 [1] [1] 0 0 [1 / 2] = Inr [1]"
  by (simp add: crossover_def)

theorem crossover_forced_dimension_witness:
  "crossover 2 [1, 2] [3, 4] 0 1 [1 / 2, 1 / 2] = Inr [1, 4]"
proof -
  from crossover_forced_dimension [of "[1, 2]" 2 "[3, 4]" 1 0 "[1 / 2, 1 / 2]"]
  obtain trial where t: "crossover 2 [1, 2] [3, 4] 0 1 [1 / 2, 1 / 2] = Inr trial"
    and l: "length trial = 2"
    and v: "\<forall>i<2. trial ! i = (if [1 / 2, 1 / 2 :: real] ! i < 0 \<or> i = 1
                                 then [3, 4] ! i else [1, 2] ! i)"
    by auto
  from v have "trial ! 0 = 1" "trial ! 1 = 4" by auto
  with l have "trial = [1, 4]"
    by (cases trial; cases "tl trial"; cases "tl (tl trial)") auto
  with t show ?thesis by simp
qed

section \<open>The tracked best is the minimum and never rises\<close>


lemma np_argmin_props:
  "xs \<noteq> [] \<Longrightarrow> np_argmin xs < length xs \<and> (\<forall>x\<in>set xs. xs ! np_argmin xs \<le> x)"
proof (induction xs rule: np_argmin.induct)
  case 1 then show ?case by simp
next
  case (2 x) then show ?case by simp
next
  case (3 x y ys)
  then have ih: "np_argmin (y # ys) < length (y # ys)"
    "\<forall>z\<in>set (y # ys). (y # ys) ! np_argmin (y # ys) \<le> z" by auto
  show ?case
  proof (cases "x \<le> (y # ys) ! np_argmin (y # ys)")
    case True
    then have "np_argmin (x # y # ys) = 0" by simp
    moreover have "\<forall>z\<in>set (x # y # ys). x \<le> z" using True ih(2) by auto
    ultimately show ?thesis by simp
  next
    case False
    then have e: "np_argmin (x # y # ys) = Suc (np_argmin (y # ys))" by (simp add: Let_def)
    have "\<forall>z\<in>set (x # y # ys). (y # ys) ! np_argmin (y # ys) \<le> z" using False ih(2) by auto
    then show ?thesis using e ih(1) by simp
  qed
qed

lemma min_charact:
  "b \<in> set xs \<Longrightarrow> \<forall>x\<in>set xs. b \<le> x \<Longrightarrow> b = Min (set xs)"
  by (metis List.finite_set Min_eqI)

lemma best_is_min_lower:
  "best_is_min st \<Longrightarrow> x \<in> set (fitness st) \<Longrightarrow> best_fitness st \<le> x"
  by (simp add: best_is_min_def)

lemma best_is_minI:
  assumes "length (population st) = length (fitness st)" "best_idx st < length (fitness st)"
    "fitness st ! best_idx st = best_fitness st" "\<forall>x\<in>set (fitness st). best_fitness st \<le> x"
  shows "best_is_min st"
proof -
  from assms(2) have ne: "fitness st \<noteq> []" by auto
  from assms(2,3) have "best_fitness st \<in> set (fitness st)" by (metis nth_mem)
  from min_charact [OF this assms(4)] ne assms show ?thesis by (simp add: best_is_min_def)
qed

lemma initialize_population_inv:
  assumes "initialize_population cfg u = Inr st"
  shows "best_is_min st"
proof -
  let ?fit = "map (objective_func cfg) (map u [0..<popsize cfg])"
  from assms have ne: "?fit \<noteq> []"
    by (auto simp: initialize_population_def Let_def split: if_splits)
  from assms ne have st: "fitness st = ?fit" "population st = map u [0..<popsize cfg]"
    "best_idx st = np_argmin ?fit" "best_fitness st = ?fit ! np_argmin ?fit"
    by (auto simp: initialize_population_def Let_def split: if_splits)
  from np_argmin_props [OF ne] have a: "np_argmin ?fit < length ?fit"
    and b: "\<forall>x\<in>set ?fit. ?fit ! np_argmin ?fit \<le> x" by auto
  show ?thesis
    by (rule best_is_minI) (use a b in \<open>simp_all add: st del: map_map\<close>)
qed

lemma evolve_individual_cases:
  assumes "evolve_individual cfg d i (st, succ) = Inr (st', succ')"
  shows "(st' = st \<and> succ' = succ)
       \<or> (\<exists>trial F CR A.
             objective_func cfg trial < fitness st ! i
             \<and> succ' = succ @ [(F, CR)]
             \<and> st' = (if objective_func cfg trial < best_fitness st
                      then st\<lparr>archive := A, population := (population st)[i := trial],
                              fitness := (fitness st)[i := objective_func cfg trial],
                              best_idx := i, best_fitness := objective_func cfg trial\<rparr>
                      else st\<lparr>archive := A, population := (population st)[i := trial],
                              fitness := (fitness st)[i := objective_func cfg trial]\<rparr>))"
  using assms
  by (auto simp: evolve_individual_def Let_def split: sum.splits prod.splits if_splits)


lemma evolve_individual_inv:
  assumes inv: "best_is_min st" and i: "i < length (fitness st)"
    and ev: "evolve_individual cfg d i (st, succ) = Inr (st', succ')"
  shows "best_is_min st' \<and> best_fitness st' \<le> best_fitness st
       \<and> length (fitness st') = length (fitness st)
       \<and> convergence_history st' = convergence_history st
       \<and> generation st' = generation st
       \<and> (fitness st' ! i < fitness st ! i \<or> (fitness st' = fitness st \<and> population st' = population st))"
proof -
  from inv have len: "length (population st) = length (fitness st)"
    and b: "best_idx st < length (fitness st)"
    and fb: "fitness st ! best_idx st = best_fitness st"
    and low: "\<forall>x\<in>set (fitness st). best_fitness st \<le> x"
    by (simp_all add: best_is_min_def)
  from evolve_individual_cases [OF ev] show ?thesis
  proof
    assume "st' = st \<and> succ' = succ"
    then show ?thesis using inv by simp
  next
    assume "\<exists>trial F CR A.
             objective_func cfg trial < fitness st ! i
             \<and> succ' = succ @ [(F, CR)]
             \<and> st' = (if objective_func cfg trial < best_fitness st
                      then st\<lparr>archive := A, population := (population st)[i := trial],
                              fitness := (fitness st)[i := objective_func cfg trial],
                              best_idx := i, best_fitness := objective_func cfg trial\<rparr>
                      else st\<lparr>archive := A, population := (population st)[i := trial],
                              fitness := (fitness st)[i := objective_func cfg trial]\<rparr>)"
    then obtain trial F CR A where better: "objective_func cfg trial < fitness st ! i"
      and st': "st' = (if objective_func cfg trial < best_fitness st
                      then st\<lparr>archive := A, population := (population st)[i := trial],
                              fitness := (fitness st)[i := objective_func cfg trial],
                              best_idx := i, best_fitness := objective_func cfg trial\<rparr>
                      else st\<lparr>archive := A, population := (population st)[i := trial],
                              fitness := (fitness st)[i := objective_func cfg trial]\<rparr>)"
      by blast
    let ?tf = "objective_func cfg trial"
    have sub: "set ((fitness st)[i := ?tf]) \<subseteq> insert ?tf (set (fitness st))"
      by (rule set_update_subset_insert)
    show ?thesis
    proof (cases "?tf < best_fitness st")
      case True
      then have s: "st' = st\<lparr>archive := A, population := (population st)[i := trial],
                              fitness := (fitness st)[i := ?tf],
                              best_idx := i, best_fitness := ?tf\<rparr>"
        using st' by simp
      have "\<forall>x\<in>set ((fitness st)[i := ?tf]). ?tf \<le> x"
        using sub low True by fastforce
      then have "best_is_min st'"
        by (intro best_is_minI) (use i len in \<open>simp_all add: s\<close>)
      then show ?thesis using True better i by (simp add: s)
    next
      case False
      then have s: "st' = st\<lparr>archive := A, population := (population st)[i := trial],
                              fitness := (fitness st)[i := ?tf]\<rparr>"
        using st' by simp
      from False better fb have ne: "i \<noteq> best_idx st" by auto
      have "\<forall>x\<in>set ((fitness st)[i := ?tf]). best_fitness st \<le> x"
        using sub low False by fastforce
      then have "best_is_min st'"
        by (intro best_is_minI) (use i len b fb ne in \<open>simp_all add: s\<close>)
      then show ?thesis using better i by (simp add: s)
    qed
  qed
qed

lemma evolve_population_inv:
  assumes "best_is_min st" "\<forall>i\<in>set idxs. i < length (fitness st)"
    "evolve_population cfg rnd idxs (st, succ) = Inr (st', succ')"
  shows "best_is_min st' \<and> best_fitness st' \<le> best_fitness st
       \<and> length (fitness st') = length (fitness st)
       \<and> convergence_history st' = convergence_history st
       \<and> generation st' = generation st"
  using assms
proof (induction idxs arbitrary: st succ)
  case Nil then show ?case by simp
next
  case (Cons i idxs)
  from Cons.prems(3) obtain st1 succ1
    where e: "evolve_individual cfg (rnd i) i (st, succ) = Inr (st1, succ1)"
      and r: "evolve_population cfg rnd idxs (st1, succ1) = Inr (st', succ')"
    by (auto split: sum.splits)
  from Cons.prems(2) have i: "i < length (fitness st)" by simp
  from evolve_individual_inv [OF Cons.prems(1) i e]
  have a: "best_is_min st1" "best_fitness st1 \<le> best_fitness st"
    "length (fitness st1) = length (fitness st)"
    "convergence_history st1 = convergence_history st" "generation st1 = generation st"
    by auto
  have "\<forall>j\<in>set idxs. j < length (fitness st1)" using Cons.prems(2) a(3) by simp
  from Cons.IH [OF a(1) this r] a show ?case by simp
qed

lemma map_sort_key: "map f (sort_key f xs) = sort (map f xs)"
  by (rule properties_for_sort [symmetric]) simp_all

lemma argsort_values: "map (\<lambda>j. fs ! j) (np_argsort fs) = sort fs"
proof -
  have "map (\<lambda>j. fs ! j) (np_argsort fs) = sort (map (\<lambda>j. fs ! j) [0..<length fs])"
    unfolding np_argsort_def by (rule map_sort_key)
  then show ?thesis by (simp add: map_nth)
qed

lemma update_population_size_cases:
  "update_population_size cfg st = st
   \<or> (\<exists>k. 4 \<le> k \<and> k < length (population st)
          \<and> update_population_size cfg st =
              st\<lparr>population := map (\<lambda>j. population st ! j) (take k (np_argsort (fitness st))),
                 fitness := map (\<lambda>j. fitness st ! j) (take k (np_argsort (fitness st))),
                 best_idx := 0\<rparr>)"
proof (cases "update_population_size cfg st = st")
  case True then show ?thesis by simp
next
  case False
  define c where "c = max (py_int (real (popsize cfg)
        - real (generation st) / real (maxiter cfg)
          * (real (popsize cfg) - real (max 4 (dim cfg div 2))))) (int (max 4 (dim cfg div 2)))"
  have c4: "4 \<le> c" unfolding c_def by simp
  from False have lt: "c < int (length (population st))"
    unfolding c_def by (auto simp: update_population_size_def Let_def split: if_splits)
  from False lt have "update_population_size cfg st =
      st\<lparr>population := map (\<lambda>j. population st ! j) (take (nat c) (np_argsort (fitness st))),
         fitness := map (\<lambda>j. fitness st ! j) (take (nat c) (np_argsort (fitness st))),
         best_idx := 0\<rparr>"
    unfolding c_def by (auto simp: update_population_size_def Let_def split: if_splits)
  moreover have "4 \<le> nat c" "nat c < length (population st)" using c4 lt by auto
  ultimately show ?thesis by blast
qed

lemma update_population_size_inv:
  assumes inv: "best_is_min st"
  shows "best_is_min (update_population_size cfg st)
       \<and> best_fitness (update_population_size cfg st) = best_fitness st
       \<and> convergence_history (update_population_size cfg st) = convergence_history st
       \<and> (update_population_size cfg st = st
          \<or> (\<exists>k. 4 \<le> k \<and> k < length (fitness st)
                \<and> fitness (update_population_size cfg st) = take k (sort (fitness st))))"
proof -
  from inv have len: "length (population st) = length (fitness st)"
    and bm: "best_fitness st = Min (set (fitness st))" and ne: "fitness st \<noteq> []"
    by (simp_all add: best_is_min_def)
  from update_population_size_cases [of cfg st] show ?thesis
  proof
    assume "update_population_size cfg st = st"
    then show ?thesis using inv by simp
  next
    assume "\<exists>k. 4 \<le> k \<and> k < length (population st)
          \<and> update_population_size cfg st =
              st\<lparr>population := map (\<lambda>j. population st ! j) (take k (np_argsort (fitness st))),
                 fitness := map (\<lambda>j. fitness st ! j) (take k (np_argsort (fitness st))),
                 best_idx := 0\<rparr>"
    then obtain k where k4: "4 \<le> k" and kl: "k < length (population st)"
      and u: "update_population_size cfg st =
              st\<lparr>population := map (\<lambda>j. population st ! j) (take k (np_argsort (fitness st))),
                 fitness := map (\<lambda>j. fitness st ! j) (take k (np_argsort (fitness st))),
                 best_idx := 0\<rparr>" by blast
    let ?F = "sort (fitness st)"
    have f: "fitness (update_population_size cfg st) = take k ?F"
      by (simp add: u take_map [symmetric] argsort_values)
    have lF: "length ?F = length (fitness st)" by simp
    have k0: "0 < k" using k4 by simp
    have hd: "take k ?F ! 0 = ?F ! 0" using k0 by simp
    have F0: "\<forall>x\<in>set ?F. ?F ! 0 \<le> x"
    proof
      fix x assume "x \<in> set ?F"
      then obtain j where "j < length ?F" "?F ! j = x" by (metis in_set_conv_nth)
      moreover have "sorted ?F" by simp
      ultimately show "?F ! 0 \<le> x" using sorted_nth_mono [of ?F 0 j] by auto
    qed
    have "?F ! 0 \<in> set ?F" using ne lF by (metis length_greater_0_conv nth_mem)
    then have "?F ! 0 = Min (set ?F)" using F0 by (rule min_charact)
    then have m: "?F ! 0 = best_fitness st" using bm by simp
    have low: "\<forall>x\<in>set (take k ?F). best_fitness st \<le> x"
      using F0 m by (auto dest: in_set_takeD)
    have "best_is_min (update_population_size cfg st)"
    proof (rule best_is_minI)
      show "length (population (update_population_size cfg st))
            = length (fitness (update_population_size cfg st))" by (simp add: u)
      show "best_idx (update_population_size cfg st)
            < length (fitness (update_population_size cfg st))"
        using k0 kl len by (simp add: f) (simp add: u)
      show "fitness (update_population_size cfg st) ! best_idx (update_population_size cfg st)
            = best_fitness (update_population_size cfg st)"
        using hd m by (simp add: f) (simp add: u)
      show "\<forall>x\<in>set (fitness (update_population_size cfg st)).
              best_fitness (update_population_size cfg st) \<le> x"
        using low by (simp add: f) (simp add: u)
    qed
    moreover have "best_fitness (update_population_size cfg st) = best_fitness st"
      "convergence_history (update_population_size cfg st) = convergence_history st"
      by (simp_all add: u)
    moreover have "\<exists>k. 4 \<le> k \<and> k < length (fitness st)
                \<and> fitness (update_population_size cfg st) = take k (sort (fitness st))"
      using k4 kl len f by auto
    ultimately show ?thesis by blast
  qed
qed


lemma run_generation_inv:
  assumes inv: "best_is_min st" and run: "run_generation cfg rnd g st = Inr st'"
  shows "best_is_min st' \<and> best_fitness st' \<le> best_fitness st
       \<and> convergence_history st' = convergence_history st @ [best_fitness st']"
proof -
  let ?s0 = "st\<lparr>generation := g\<rparr>"
  let ?s1 = "update_population_size cfg ?s0"
  have inv0: "best_is_min ?s0" using inv by (simp add: best_is_min_def)
  from update_population_size_inv [OF inv0, of cfg]
  have inv1: "best_is_min ?s1" and b1: "best_fitness ?s1 = best_fitness st"
    and h1: "convergence_history ?s1 = convergence_history st" by auto
  from run obtain st2 succ
    where ev: "evolve_population cfg (rnd g) [0..<length (population ?s1)] (?s1, []) = Inr (st2, succ)"
      and st': "st' = st2\<lparr>adaptive_params := end_of_generation (adaptive_params st2) succ,
                      convergence_history := convergence_history st2 @ [best_fitness st2]\<rparr>"
    by (auto simp: run_generation_def Let_def split: sum.splits)
  from inv1 have "\<forall>i\<in>set [0..<length (population ?s1)]. i < length (fitness ?s1)"
    by (simp add: best_is_min_def)
  from evolve_population_inv [OF inv1 this ev]
  have inv2: "best_is_min st2" and b2: "best_fitness st2 \<le> best_fitness ?s1"
    and h2: "convergence_history st2 = convergence_history ?s1" by auto
  have "best_is_min st'" using inv2 by (simp add: st' best_is_min_def)
  then show ?thesis using b1 b2 h1 h2 by (simp add: st')
qed

lemma optimize_loop_inv:
  assumes "best_is_min st" "history_ok st" "optimize_loop cfg rnd gs st = Inr st'"
  shows "best_is_min st' \<and> history_ok st'"
  using assms
proof (induction gs arbitrary: st)
  case Nil then show ?case by simp
next
  case (Cons g gs)
  from Cons.prems(3) obtain s1 where r: "run_generation cfg rnd g st = Inr s1"
    and rest: "(\<bar>best_fitness s1\<bar> < tol cfg \<and> st' = s1)
               \<or> optimize_loop cfg rnd gs s1 = Inr st'"
    by (auto split: sum.splits if_splits)
  from run_generation_inv [OF Cons.prems(1) r]
  have i1: "best_is_min s1" and b: "best_fitness s1 \<le> best_fitness st"
    and h: "convergence_history s1 = convergence_history st @ [best_fitness s1]" by auto
  have "\<forall>x\<in>set (convergence_history st). best_fitness s1 \<le> x"
    using Cons.prems(2) b by (fastforce simp: history_ok_def)
  then have "sorted_wrt (\<ge>) (convergence_history st @ [best_fitness s1])"
    "\<forall>x\<in>set (convergence_history st @ [best_fitness s1]). best_fitness s1 \<le> x"
    using Cons.prems(2) by (auto simp: history_ok_def sorted_wrt_append)
  then have h1: "history_ok s1" unfolding history_ok_def h [symmetric] by simp
  from rest show ?case
  proof
    assume "\<bar>best_fitness s1\<bar> < tol cfg \<and> st' = s1"
    then show ?thesis using i1 h1 by simp
  next
    assume "optimize_loop cfg rnd gs s1 = Inr st'"
    from Cons.IH [OF i1 h1 this] show ?thesis .
  qed
qed

lemma optimize_inv:
  assumes "optimize cfg u rnd = Inr st"
  shows "best_is_min st \<and> sorted_wrt (\<ge>) (convergence_history st)"
proof -
  from assms obtain s0 where i: "initialize_population cfg u = Inr s0"
    and l: "optimize_loop cfg rnd [0..<maxiter cfg] s0 = Inr st"
    by (auto simp: optimize_def split: sum.splits)
  have h0: "convergence_history s0 = []"
    using i by (auto simp: initialize_population_def Let_def split: if_splits)
  then have "history_ok s0" by (simp add: history_ok_def)
  from optimize_loop_inv [OF initialize_population_inv [OF i] this l]
  show ?thesis by (simp add: history_ok_def)
qed

text \<open>
  C6.  In the state that \<open>optimize\<close> returns, every entry of
  \<open>convergence_history\<close> is at most its predecessor.  The steps behind it: evolving
  an individual never raises \<open>best_fitness\<close> and either replaces individual \<open>i\<close> by
  a trial of strictly smaller fitness or leaves population and fitness alone; population
  shrinking keeps \<open>best_fitness\<close> and retains the \<open>k\<close> smallest fitness values.
\<close>

theorem best_fitness_history_non_increasing:
  "(optimize cfg u rnd = Inr st \<longrightarrow>
      (\<forall>k. Suc k < length (convergence_history st) \<longrightarrow>
           convergence_history st ! Suc k \<le> convergence_history st ! k))
   \<and> (best_is_min s \<and> i < length (fitness s)
        \<and> evolve_individual cfg d i (s, succ) = Inr (s', succ') \<longrightarrow>
      best_fitness s' \<le> best_fitness s
      \<and> (fitness s' ! i < fitness s ! i
         \<or> (fitness s' = fitness s \<and> population s' = population s)))
   \<and> (best_is_min s \<longrightarrow>
      best_fitness (update_population_size cfg s) = best_fitness s
      \<and> (update_population_size cfg s = s
         \<or> (\<exists>k. 4 \<le> k \<and> k < length (fitness s)
               \<and> fitness (update_population_size cfg s) = take k (sort (fitness s)))))"
proof (intro conjI impI allI)
  fix k
  assume o: "optimize cfg u rnd = Inr st" and k: "Suc k < length (convergence_history st)"
  from optimize_inv [OF o] have "sorted_wrt (\<ge>) (convergence_history st)" by simp
  then show "convergence_history st ! Suc k \<le> convergence_history st ! k"
    using k sorted_wrt_nth_less [of "(\<ge>)" "convergence_history st" k "Suc k"] by simp
next
  assume a: "best_is_min s \<and> i < length (fitness s)
        \<and> evolve_individual cfg d i (s, succ) = Inr (s', succ')"
  then have a1: "best_is_min s" and a2: "i < length (fitness s)"
    and a3: "evolve_individual cfg d i (s, succ) = Inr (s', succ')" by auto
  from evolve_individual_inv [OF a1 a2 a3]
  show "best_fitness s' \<le> best_fitness s" by simp
  from evolve_individual_inv [OF a1 a2 a3]
  show "fitness s' ! i < fitness s ! i
         \<or> (fitness s' = fitness s \<and> population s' = population s)" by simp
next
  assume b: "best_is_min s"
  from update_population_size_inv [OF b, of cfg]
  show "best_fitness (update_population_size cfg s) = best_fitness s" by simp
  from update_population_size_inv [OF b, of cfg]
  show "update_population_size cfg s = s
         \<or> (\<exists>k. 4 \<le> k \<and> k < length (fitness s)
               \<and> fitness (update_population_size cfg s) = take k (sort (fitness s)))" by simp
qed

text \<open>
  C10.  \<open>best_is_min\<close> (\<open>best_fitness\<close> is the minimum of the fitness array and
  \<open>fitness[best_idx] == best_fitness\<close>) holds after \<open>initialize_population\<close>, is
  preserved by the step that evolves one individual, by \<open>update_population_size\<close>
  (which sets \<open>best_idx\<close> to 0 when it shrinks), by a whole generation, and so holds in
  the state \<open>optimize\<close> returns.
\<close>

theorem best_is_min_preserved:
  "(initialize_population cfg u = Inr s0 \<longrightarrow> best_is_min s0)
   \<and> (best_is_min s \<and> i < length (fitness s)
        \<and> evolve_individual cfg d i (s, succ) = Inr (s', succ') \<longrightarrow> best_is_min s')
   \<and> (best_is_min s \<longrightarrow>
        best_is_min (update_population_size cfg s)
        \<and> (update_population_size cfg s \<noteq> s \<longrightarrow> best_idx (update_population_size cfg s) = 0))
   \<and> (best_is_min s \<and> run_generation cfg rnd g s = Inr s'' \<longrightarrow> best_is_min s'')
   \<and> (optimize cfg u rnd = Inr st \<longrightarrow> best_is_min st)"
proof (intro conjI impI)
  assume "initialize_population cfg u = Inr s0"
  then show "best_is_min s0" by (rule initialize_population_inv)
next
  assume a: "best_is_min s \<and> i < length (fitness s)
        \<and> evolve_individual cfg d i (s, succ) = Inr (s', succ')"
  then have a1: "best_is_min s" and a2: "i < length (fitness s)"
    and a3: "evolve_individual cfg d i (s, succ) = Inr (s', succ')" by auto
  from evolve_individual_inv [OF a1 a2 a3] show "best_is_min s'" by simp
next
  assume b: "best_is_min s"
  from update_population_size_inv [OF b, of cfg]
  show "best_is_min (update_population_size cfg s)" by simp
  assume "update_population_size cfg s \<noteq> s"
  with update_population_size_cases [of cfg s]
  show "best_idx (update_population_size cfg s) = 0" by auto
next
  assume "best_is_min s \<and> run_generation cfg rnd g s = Inr s''"
  then show "best_is_min s''" using run_generation_inv by blast
next
  assume "optimize cfg u rnd = Inr st"
  from optimize_inv [OF this] show "best_is_min st" by simp
qed

lemma demo_run:
  "map_sum id (\<lambda>st. (fitness st, best_idx st, best_fitness st, convergence_history st))
     (optimize demo_de_config demo_sample demo_rnd)
   = Inr ([1 / 4, 9 / 256, 49 / 1024, 2025 / 4096, 2025 / 4096], 1, 9 / 256, [1 / 4, 9 / 256])"
  by code_simp

lemma demo_run_state:
  "optimize demo_de_config demo_sample demo_rnd
     = Inr (projr (optimize demo_de_config demo_sample demo_rnd))
   \<and> fitness (projr (optimize demo_de_config demo_sample demo_rnd))
       = [1 / 4, 9 / 256, 49 / 1024, 2025 / 4096, 2025 / 4096]
   \<and> best_idx (projr (optimize demo_de_config demo_sample demo_rnd)) = 1
   \<and> best_fitness (projr (optimize demo_de_config demo_sample demo_rnd)) = 9 / 256
   \<and> convergence_history (projr (optimize demo_de_config demo_sample demo_rnd))
       = [1 / 4, 9 / 256]"
  using demo_run by (cases "optimize demo_de_config demo_sample demo_rnd") auto

theorem best_fitness_history_witness:
  "convergence_history (projr (optimize demo_de_config demo_sample demo_rnd)) = [1 / 4, 9 / 256]
   \<and> convergence_history (projr (optimize demo_de_config demo_sample demo_rnd)) ! Suc 0
      \<le> convergence_history (projr (optimize demo_de_config demo_sample demo_rnd)) ! 0"
  using best_fitness_history_non_increasing
    [of demo_de_config demo_sample demo_rnd
      "projr (optimize demo_de_config demo_sample demo_rnd)"]
    demo_run_state
  by simp

theorem best_is_min_witness:
  "best_is_min (projr (optimize demo_de_config demo_sample demo_rnd))
   \<and> fitness (projr (optimize demo_de_config demo_sample demo_rnd))
        ! best_idx (projr (optimize demo_de_config demo_sample demo_rnd)) = 9 / 256
   \<and> best_fitness (projr (optimize demo_de_config demo_sample demo_rnd)) = 9 / 256"
  using best_is_min_preserved
    [of demo_de_config demo_sample _ _ _ _ _ _ _ demo_rnd _ _
      "projr (optimize demo_de_config demo_sample demo_rnd)"]
    demo_run_state
  by simp

section \<open>The shadow-cone test on the rim circles\<close>


lemma arccos_le_arcsin_iff:
  assumes "0 \<le> x" "x \<le> 1" "0 \<le> y" "y \<le> 1"
  shows "arccos x \<le> arcsin y \<longleftrightarrow> sqrt (1 - y\<^sup>2) \<le> x"
proof -
  have b: "0 \<le> arcsin y" "arcsin y \<le> pi / 2"
    using assms arcsin_bounded [of y] arcsin_le_arcsin [of 0 y] by auto
  have c: "cos (arcsin y) = sqrt (1 - y\<^sup>2)" using assms by (intro cos_arcsin) auto
  have s: "0 \<le> sqrt (1 - y\<^sup>2)" "sqrt (1 - y\<^sup>2) \<le> 1"
    using assms by (auto simp: power_le_one_iff)
  have "arcsin y = arccos (cos (arcsin y))"
    using b pi_ge_zero by (intro arccos_cos [symmetric]) linarith+
  then have "arcsin y = arccos (sqrt (1 - y\<^sup>2))" using c by simp
  then have "arccos x \<le> arcsin y \<longleftrightarrow> arccos x \<le> arccos (sqrt (1 - y\<^sup>2))" by simp
  also have "\<dots> \<longleftrightarrow> sqrt (1 - y\<^sup>2) \<le> x"
    using assms s by (intro arccos_le_mono) auto
  finally show ?thesis .
qed

lemma point_test:
  assumes "vnorm (vsub p V) = n" "1 / 10 ^ 9 \<le> n" "dot (vsub p V) d / n = c" "- 1 \<le> c" "c \<le> 1"
  shows "points_in_cone V d a (Some p # ps) = (\<not> arccos c > a \<and> points_in_cone V d a ps)"
  using assms by (auto simp: Let_def np_clip_def)

lemma cos_bound:
  assumes "0 < m" "m\<^sup>2 \<le> s"
  shows "0 \<le> m / sqrt s \<and> m / sqrt s \<le> 1"
proof -
  have "m \<le> sqrt s" using assms by (intro real_le_rsqrt) auto
  moreover have "0 < sqrt s" using assms calculation by linarith
  ultimately show ?thesis using assms by (auto simp: divide_le_eq)
qed

lemma angle_inside:
  assumes "0 < m" "m\<^sup>2 \<le> s" "0 \<le> y" "y \<le> 1" "0 \<le> c" "c\<^sup>2 = 1 - y\<^sup>2"
    "c\<^sup>2 * s \<le> m\<^sup>2"
  shows "\<not> arccos (m / sqrt s) > arcsin y"
proof -
  from cos_bound [OF assms(1,2)] have b: "0 \<le> m / sqrt s" "m / sqrt s \<le> 1" by auto
  have "m \<le> sqrt s" using assms by (intro real_le_rsqrt) auto
  then have sp: "0 < sqrt s" using assms(1) by linarith
  have cy: "sqrt (1 - y\<^sup>2) = c" using assms(5,6) by (intro real_sqrt_unique) auto
  have "sqrt (c\<^sup>2 * s) \<le> m" using assms(1,7) by (intro real_le_lsqrt) auto
  then have "c * sqrt s \<le> m" using assms(5) by (simp add: real_sqrt_mult)
  then have "c \<le> m / sqrt s" using sp by (simp add: field_simps)
  then have "arccos (m / sqrt s) \<le> arcsin y"
    using b assms(3,4) cy by (subst arccos_le_arcsin_iff) auto
  then show ?thesis by simp
qed

lemma angle_outside:
  assumes "0 < m" "m\<^sup>2 \<le> s" "0 \<le> y" "y \<le> 1" "0 \<le> c" "c\<^sup>2 = 1 - y\<^sup>2"
    "m\<^sup>2 < c\<^sup>2 * s"
  shows "arccos (m / sqrt s) > arcsin y"
proof -
  from cos_bound [OF assms(1,2)] have b: "0 \<le> m / sqrt s" "m / sqrt s \<le> 1" by auto
  have "m \<le> sqrt s" using assms by (intro real_le_rsqrt) auto
  then have sp: "0 < sqrt s" using assms(1) by linarith
  have cy: "sqrt (1 - y\<^sup>2) = c" using assms(5,6) by (intro real_sqrt_unique) auto
  have "m < sqrt (c\<^sup>2 * s)" using assms(1,7) by (intro real_less_rsqrt) auto
  then have "m < c * sqrt s" using assms(5) by (simp add: real_sqrt_mult)
  then have "m / sqrt s < c" using sp by (simp add: field_simps)
  then have "\<not> arccos (m / sqrt s) \<le> arcsin y"
    using b assms(3,4) cy by (subst arccos_le_arcsin_iff) auto
  then show ?thesis by simp
qed

lemma sqrt_values:
  "sqrt 676 = (26 :: real)" "sqrt 25 = (5 :: real)" "sqrt 100 = (10 :: real)"
  "sqrt (10201 / 4) = (101 / 2 :: real)"
  by (rule real_sqrt_unique, simp add: power2_eq_square, simp)+

lemma sqrt_upper: "sqrt 425 \<le> (21 :: real)" "sqrt 3464 \<le> (59 :: real)"
  by (rule real_le_lsqrt, simp, simp)+

lemma point_inside:
  assumes "vnorm (vsub p V) = sqrt s" "dot (vsub p V) d = m" "0 < m" "m\<^sup>2 \<le> s" "1 \<le> m"
    "0 \<le> y" "y \<le> 1" "0 \<le> c" "c\<^sup>2 = 1 - y\<^sup>2" "c\<^sup>2 * s \<le> m\<^sup>2"
  shows "points_in_cone V d (arcsin y) (Some p # ps) = points_in_cone V d (arcsin y) ps"
proof -
  have "m \<le> sqrt s" using assms by (intro real_le_rsqrt) auto
  then have n: "1 / 10 ^ 9 \<le> sqrt s" using assms(5) by simp
  have c: "dot (vsub p V) d / sqrt s = m / sqrt s" using assms(2) by simp
  from cos_bound [OF assms(3,4)] have b: "- 1 \<le> m / sqrt s" "m / sqrt s \<le> 1" by auto
  from angle_inside [OF assms(3,4,6,7,8,9,10)] point_test [OF assms(1) n c b]
  show ?thesis by simp
qed

lemma point_outside:
  assumes "vnorm (vsub p V) = sqrt s" "dot (vsub p V) d = m" "0 < m" "m\<^sup>2 \<le> s" "1 \<le> m"
    "0 \<le> y" "y \<le> 1" "0 \<le> c" "c\<^sup>2 = 1 - y\<^sup>2" "m\<^sup>2 < c\<^sup>2 * s"
  shows "points_in_cone V d (arcsin y) (Some p # ps) = False"
proof -
  have "m \<le> sqrt s" using assms by (intro real_le_rsqrt) auto
  then have n: "1 / 10 ^ 9 \<le> sqrt s" using assms(5) by simp
  have c: "dot (vsub p V) d / sqrt s = m / sqrt s" using assms(2) by simp
  from cos_bound [OF assms(3,4)] have b: "- 1 \<le> m / sqrt s" "m / sqrt s \<le> 1" by auto
  from angle_outside [OF assms(3,4,6,7,8,9,10)] point_test [OF assms(1) n c b]
  show ?thesis by simp
qed

text \<open>Observer (20, 200, 5), cloud centre (-6, 200, 5): the line through the cylinder's midpoint.\<close>

lemma mid_bottom_points:
  "points_to_check (20, 200, 5) (- 1, 0, 0) (0, 200, 0) 7 (0, 0, - 1)
     = [Some (- 7, 200, 0), Some (7, 200, 0)]"
  using sqrt_upper(1)
  by (simp add: points_to_check_def Let_def vnorm_def sqrt_values unit_vec_of_def offset_point_def)

lemma mid_top_points:
  "points_to_check (20, 200, 5) (- 1, 0, 0) (0, 200, 10) 7 (0, 0, 1)
     = [Some (- 7, 200, 10), Some (7, 200, 10)]"
  using sqrt_upper(1)
  by (simp add: points_to_check_def Let_def vnorm_def sqrt_values unit_vec_of_def offset_point_def)

lemma mid_circles_pass:
  "check_circle_in_cone (20, 200, 5) (- 1, 0, 0) (arcsin (5 / 13)) (0, 200, 0) 7 (0, 0, - 1)"
  "check_circle_in_cone (20, 200, 5) (- 1, 0, 0) (arcsin (5 / 13)) (0, 200, 10) 7 (0, 0, 1)"
proof -
  have a0: "points_in_cone (20, 200, 5) (- 1, 0, 0) (arcsin (5 / 13)) (Some (- 7, 200, 0) # ps)
         = points_in_cone (20, 200, 5) (- 1, 0, 0) (arcsin (5 / 13)) ps" for ps
    by (rule point_inside [where s = 754 and m = 27 and c = "12 / 13"])
       (auto simp: vnorm_def power2_eq_square)
  have a1: "points_in_cone (20, 200, 5) (- 1, 0, 0) (arcsin (5 / 13)) (Some (- 7, 200, 10) # ps)
         = points_in_cone (20, 200, 5) (- 1, 0, 0) (arcsin (5 / 13)) ps" for ps
    by (rule point_inside [where s = 754 and m = 27 and c = "12 / 13"])
       (auto simp: vnorm_def power2_eq_square)
  have b0: "points_in_cone (20, 200, 5) (- 1, 0, 0) (arcsin (5 / 13)) (Some (7, 200, 0) # ps)
         = points_in_cone (20, 200, 5) (- 1, 0, 0) (arcsin (5 / 13)) ps" for ps
    by (rule point_inside [where s = 194 and m = 13 and c = "12 / 13"])
       (auto simp: vnorm_def power2_eq_square)
  have b1: "points_in_cone (20, 200, 5) (- 1, 0, 0) (arcsin (5 / 13)) (Some (7, 200, 10) # ps)
         = points_in_cone (20, 200, 5) (- 1, 0, 0) (arcsin (5 / 13)) ps" for ps
    by (rule point_inside [where s = 194 and m = 13 and c = "12 / 13"])
       (auto simp: vnorm_def power2_eq_square)
  show "check_circle_in_cone (20, 200, 5) (- 1, 0, 0) (arcsin (5 / 13)) (0, 200, 0) 7 (0, 0, - 1)"
    unfolding check_circle_in_cone_def mid_bottom_points a0 b0 by simp
  show "check_circle_in_cone (20, 200, 5) (- 1, 0, 0) (arcsin (5 / 13)) (0, 200, 10) 7 (0, 0, 1)"
    unfolding check_circle_in_cone_def mid_top_points a1 b1 by simp
qed

lemma mid_rim_point_outside:
  "points_in_cone (20, 200, 5) (- 1, 0, 0) (arcsin (5 / 13)) [Some (0, 207, 0)] = False"
  by (rule point_outside [where s = 474 and m = 20 and c = "12 / 13"])
     (auto simp: vnorm_def power2_eq_square)

lemma mid_returns_true:
  "check_full_obscuration (20, 200, 5) (- 6, 200, 5) (TargetCylinder_init 7 10 (0, 200, 0))"
proof -
  have d: "vnorm (vsub (- 6, 200, 5) (20, 200, 5)) = 26" by (simp add: vnorm_def sqrt_values)
  show ?thesis
    unfolding check_full_obscuration_def Let_def d
    using mid_circles_pass by (simp add: CLOUD_RADIUS_def TargetCylinder_init_def)
qed

text \<open>Observer (58, 200, 0), cloud centre (15/2, 200, 0): the line through the base centre.\<close>

lemma base_bottom_points:
  "points_to_check (58, 200, 0) (- 1, 0, 0) (0, 200, 0) 7 (0, 0, - 1) = [Some (0, 193, 0)]"
  by (simp add: points_to_check_def Let_def vnorm_def unit_vec_of_def offset_point_def)

lemma base_top_points:
  "points_to_check (58, 200, 0) (- 1, 0, 0) (0, 200, 10) 7 (0, 0, 1)
     = [Some (- 7, 200, 10), Some (7, 200, 10)]"
  using sqrt_upper(2)
  by (simp add: points_to_check_def Let_def vnorm_def sqrt_values unit_vec_of_def offset_point_def)

lemma base_circles_pass:
  "check_circle_in_cone (58, 200, 0) (- 1, 0, 0) (arcsin (20 / 101)) (0, 200, 0) 7 (0, 0, - 1)"
  "check_circle_in_cone (58, 200, 0) (- 1, 0, 0) (arcsin (20 / 101)) (0, 200, 10) 7 (0, 0, 1)"
proof -
  have a: "points_in_cone (58, 200, 0) (- 1, 0, 0) (arcsin (20 / 101)) (Some (0, 193, 0) # ps)
         = points_in_cone (58, 200, 0) (- 1, 0, 0) (arcsin (20 / 101)) ps" for ps
    by (rule point_inside [where s = 3413 and m = 58 and c = "99 / 101"])
       (auto simp: vnorm_def power2_eq_square)
  have b: "points_in_cone (58, 200, 0) (- 1, 0, 0) (arcsin (20 / 101)) (Some (- 7, 200, 10) # ps)
         = points_in_cone (58, 200, 0) (- 1, 0, 0) (arcsin (20 / 101)) ps" for ps
    by (rule point_inside [where s = 4325 and m = 65 and c = "99 / 101"])
       (auto simp: vnorm_def power2_eq_square)
  have c: "points_in_cone (58, 200, 0) (- 1, 0, 0) (arcsin (20 / 101)) (Some (7, 200, 10) # ps)
         = points_in_cone (58, 200, 0) (- 1, 0, 0) (arcsin (20 / 101)) ps" for ps
    by (rule point_inside [where s = 2701 and m = 51 and c = "99 / 101"])
       (auto simp: vnorm_def power2_eq_square)
  show "check_circle_in_cone (58, 200, 0) (- 1, 0, 0) (arcsin (20 / 101)) (0, 200, 0) 7 (0, 0, - 1)"
    unfolding check_circle_in_cone_def base_bottom_points a by simp
  show "check_circle_in_cone (58, 200, 0) (- 1, 0, 0) (arcsin (20 / 101)) (0, 200, 10) 7 (0, 0, 1)"
    unfolding check_circle_in_cone_def base_top_points b c by simp
qed

lemma base_rim_point_outside:
  "points_in_cone (58, 200, 0) (- 1, 0, 0) (arcsin (20 / 101)) [Some (0, 207, 10)] = False"
  by (rule point_outside [where s = 3513 and m = 58 and c = "99 / 101"])
     (auto simp: vnorm_def power2_eq_square)

lemma base_returns_true:
  "check_full_obscuration (58, 200, 0) (15 / 2, 200, 0) (TargetCylinder_init 7 10 (0, 200, 0))"
proof -
  have d: "vnorm (vsub (15 / 2, 200, 0) (58, 200, 0)) = 101 / 2"
    by (simp add: vnorm_def sqrt_values)
  show ?thesis
    unfolding check_full_obscuration_def Let_def d
    using base_circles_pass by (simp add: CLOUD_RADIUS_def TargetCylinder_init_def)
qed

text \<open>
  C1.  Two inputs with the configured target (radius 7, height 10, base centre
  (0, 200, 0)) and the cloud centre on the line from the observer to the target's centre,
  at a distance above the cloud radius.  In both \<open>check_full_obscuration\<close> returns
  \<open>True\<close>, while a point of a rim circle fails the code's own angle test against the
  same cone: the rim reaches further from the axis than \<open>asin(r/d)\<close>.  The first
  input has the cloud on the line to the cylinder's midpoint (distance 26), the second on
  the line to the base centre, in front of it (distance 50.5).
\<close>

theorem full_obscuration_misses_rim_point:
  "check_full_obscuration (20, 200, 5) (- 6, 200, 5) (TargetCylinder_init 7 10 (0, 200, 0)) = True
   \<and> vnorm (vsub (- 6, 200, 5) (20, 200, 5)) = 26
   \<and> vnorm (vsub (0, 207, 0) (bottom_center (TargetCylinder_init 7 10 (0, 200, 0))))
        = radius (TargetCylinder_init 7 10 (0, 200, 0))
   \<and> points_in_cone (20, 200, 5) (- 1, 0, 0) (arcsin (CLOUD_RADIUS / 26)) [Some (0, 207, 0)]
        = False
   \<and> check_full_obscuration (58, 200, 0) (15 / 2, 200, 0) (TargetCylinder_init 7 10 (0, 200, 0))
        = True
   \<and> vnorm (vsub (15 / 2, 200, 0) (58, 200, 0)) = 101 / 2
   \<and> vnorm (vsub (0, 207, 10) (top_center (TargetCylinder_init 7 10 (0, 200, 0))))
        = radius (TargetCylinder_init 7 10 (0, 200, 0))
   \<and> points_in_cone (58, 200, 0) (- 1, 0, 0) (arcsin (CLOUD_RADIUS / (101 / 2)))
        [Some (0, 207, 10)] = False"
proof -
  have h: "arcsin (CLOUD_RADIUS / 26) = arcsin (5 / 13)"
    "arcsin (CLOUD_RADIUS / (101 / 2)) = arcsin (20 / 101)"
    by (simp_all add: CLOUD_RADIUS_def)
  have d: "vnorm (vsub (- 6, 200, 5) (20, 200, 5)) = 26"
    "vnorm (vsub (15 / 2, 200, 0) (58, 200, 0)) = 101 / 2"
    by (simp_all add: vnorm_def sqrt_values)
  have r: "vnorm (vsub (0, 207, 0) (bottom_center (TargetCylinder_init 7 10 (0, 200, 0))))
        = radius (TargetCylinder_init 7 10 (0, 200, 0))"
    "vnorm (vsub (0, 207, 10) (top_center (TargetCylinder_init 7 10 (0, 200, 0))))
        = radius (TargetCylinder_init 7 10 (0, 200, 0))"
    by (simp_all add: TargetCylinder_init_def vnorm_def)
  show ?thesis
    unfolding h using mid_returns_true base_returns_true d r
      mid_rim_point_outside base_rim_point_outside by simp
qed

text \<open>
  C2.  \<open>check_circle_in_cone\<close> has no raising branch: the divisions by a norm are numpy
  divisions, whose 0/0 is NaN.  When the code's colinearity test holds it checks the one
  representative point it builds from the circle normal; a candidate point closer than
  1e-9 to the vertex is skipped, and so is a NaN candidate (both comparisons are false);
  with the vertex equal to the circle centre the result is \<open>True\<close> for every axis,
  half-angle, radius and normal.
\<close>

theorem check_circle_in_cone_degenerate:
  "(vnorm (cross (vsub C V) d) < 1 / 10 ^ 6 * vnorm (vsub C V) \<longrightarrow>
      check_circle_in_cone V d a C r n =
        points_in_cone V d a
          [offset_point C r
             (unit_vec_of (cross n (if \<bar>fst n\<bar> < 9 / 10 then (1, 0, 0) else (0, 1, 0))))])
   \<and> (vnorm (vsub p V) < 1 / 10 ^ 9 \<longrightarrow>
        points_in_cone V d a (Some p # ps) = points_in_cone V d a ps)
   \<and> points_in_cone V d a (None # ps) = points_in_cone V d a ps
   \<and> check_circle_in_cone C d a C r n = True"
proof -
  have z: "vsub C C = (0, 0, 0)" by (cases C) simp
  have c0: "cross (0, 0, 0) v = (0, 0, 0)" for v by (cases v) simp
  have "check_circle_in_cone C d a C r n = True"
    by (simp add: check_circle_in_cone_def points_to_check_def Let_def z c0 vnorm_def
        unit_vec_of_def offset_point_def)
  then show ?thesis
    by (simp add: check_circle_in_cone_def points_to_check_def Let_def)
qed

theorem check_circle_in_cone_degenerate_witness:
  "check_circle_in_cone (0, 0, 10) (0, 0, - 1) (pi / 2) (0, 0, 0) 7 (0, 0, 1) = True
   \<and> points_in_cone (0, 0, 0) (1, 0, 0) 0 [Some (0, 0, 0)] = True
   \<and> check_circle_in_cone (0, 0, 0) (1, 0, 0) 0 (0, 0, 0) 7 (0, 0, 1) = True"
proof -
  have col: "vnorm (cross (vsub (0, 0, 0) (0, 0, 10)) (0, 0, - 1))
               < 1 / 10 ^ 6 * vnorm (vsub (0, 0, 0) (0, 0, 10))"
    by (simp add: vnorm_def sqrt_values)
  have near: "vnorm (vsub (0, 0, 0) (0, 0, 0)) < 1 / 10 ^ 9" by (simp add: vnorm_def)
  have pt: "offset_point (0, 0, 0) 7
              (unit_vec_of (cross (0, 0, 1) (if \<bar>fst (0 :: real, 0 :: real, 1 :: real)\<bar> < 9 / 10
                                             then (1, 0, 0) else (0, 1, 0))))
            = Some (0, 7, 0)"
    by (simp add: offset_point_def unit_vec_of_def vnorm_def)
  have n: "vnorm (vsub (0, 7, 0) (0, 0, 10)) = sqrt 149" by (simp add: vnorm_def)
  have c: "dot (vsub (0, 7, 0) (0, 0, 10)) (0, 0, - 1) / sqrt 149 = 10 / sqrt 149" by simp
  have b: "0 \<le> 10 / sqrt 149 \<and> 10 / sqrt 149 \<le> (1 :: real)" by (rule cos_bound) simp_all
  have "(10 :: real) \<le> sqrt 149" by (rule real_le_rsqrt) simp
  then have g: "(1 :: real) / 10 ^ 9 \<le> sqrt 149" by simp
  have "arccos (10 / sqrt 149) \<le> pi / 2" using b by (intro arccos_le_pi2) auto
  with point_test [OF n g c, of "pi / 2" "[]"] b
  have one: "points_in_cone (0, 0, 10) (0, 0, - 1) (pi / 2) [Some (0, 7, 0)] = True" by simp
  from check_circle_in_cone_degenerate
         [where C = "(0, 0, 0)" and V = "(0, 0, 10)" and d = "(0, 0, - 1)" and a = "pi / 2"
            and r = 7 and n = "(0, 0, 1)" and p = "(0, 0, 0)" and ps = "[]"]
       col pt one
  have w1: "check_circle_in_cone (0, 0, 10) (0, 0, - 1) (pi / 2) (0, 0, 0) 7 (0, 0, 1) = True"
    by simp
  from check_circle_in_cone_degenerate
         [where C = "(0, 0, 0)" and V = "(0, 0, 0)" and d = "(1, 0, 0)" and a = 0
            and r = 7 and n = "(0, 0, 1)" and p = "(0, 0, 0)" and ps = "[]"]
       near
  have w2: "points_in_cone (0, 0, 0) (1, 0, 0) 0 [Some (0, 0, 0)] = True"
    and w3: "check_circle_in_cone (0, 0, 0) (1, 0, 0) 0 (0, 0, 0) 7 (0, 0, 1) = True"
    by simp_all
  from w1 w2 w3 show ?thesis by simp
qed

end
